theory Spec2Isabelle
  imports Main "HOL-Library.Word" "HOL-Library.Signed_Division"
begin

section \<open>Monotonic time and duration values\<close>

text \<open>
  \<^verbatim>\<open>type MonoTime int64\<close> and \<^verbatim>\<open>type MonoDuration int64\<close> (in one variant of the
  source \<^verbatim>\<open>type Time int64\<close> with \<^verbatim>\<open>time.Duration\<close>, itself an \<^verbatim>\<open>int64\<close>): both are
  64-bit two's complement counts of nanoseconds. The variants of \<^verbatim>\<open>Add\<close>, \<^verbatim>\<open>Sub\<close>,
  \<^verbatim>\<open>Round\<close> and \<^verbatim>\<open>Truncate\<close> in \<^verbatim>\<open>mono.go\<close> and \<^verbatim>\<open>main.go\<close> differ in these type
  names only, so one embedding stands for all of them.
\<close>

type_synonym int64 = "64 word"
type_synonym MonoTime = int64
type_synonym MonoDuration = int64

text \<open>
  Go's \<^verbatim>\<open>%\<close> on signed integers truncates towards zero: the remainder has the sign of
  the dividend. A zero divisor panics in Go; every use below sits behind the guard
  \<^verbatim>\<open>d <= 0\<close>, so the divisor is positive where the remainder is taken.
\<close>

definition rem64 :: "int64 \<Rightarrow> int64 \<Rightarrow> int64" where
  "rem64 a b = word_of_int (sint a smod sint b)"

text \<open>\<^verbatim>\<open>func (t MonoTime) Add(d MonoDuration) MonoTime { return t + MonoTime(d) }\<close>\<close>

definition Add :: "MonoTime \<Rightarrow> MonoDuration \<Rightarrow> MonoTime" where
  "Add t d = t + d"

text \<open>\<^verbatim>\<open>func (t MonoTime) Sub(tt MonoTime) MonoDuration { return MonoDuration(t - tt) }\<close>\<close>

definition Sub :: "MonoTime \<Rightarrow> MonoTime \<Rightarrow> MonoDuration" where
  "Sub t tt = t - tt"

text \<open>
  \<^verbatim>\<open>Round\<close>: returns \<open>t\<close> when \<^verbatim>\<open>d <= 0\<close>; otherwise takes \<^verbatim>\<open>r := MonoDuration(t) % d\<close>
  and returns \<^verbatim>\<open>t.Add(-r)\<close> when \<^verbatim>\<open>r*2 <= d\<close>, else \<^verbatim>\<open>t.Add(d - r)\<close>. The product
  \<^verbatim>\<open>r*2\<close> and both sums wrap around; the comparisons are signed.
\<close>

definition Round :: "MonoTime \<Rightarrow> MonoDuration \<Rightarrow> MonoTime" where
  "Round t d =
     (if d \<le>s 0 then t
      else let r = rem64 t d
           in if r * 2 \<le>s d then Add t (- r) else Add t (d - r))"

text \<open>\<^verbatim>\<open>Truncate\<close>: returns \<open>t\<close> when \<^verbatim>\<open>d <= 0\<close>, else \<^verbatim>\<open>t.Add(-(MonoDuration(t) % d))\<close>.\<close>

definition Truncate :: "MonoTime \<Rightarrow> MonoDuration \<Rightarrow> MonoTime" where
  "Truncate t d = (if d \<le>s 0 then t else Add t (- rem64 t d))"


section \<open>Errors and outcomes of calls\<close>

text \<open>
  A Go \<^verbatim>\<open>error\<close> value as far as the code tells errors apart: the sentinel
  \<^verbatim>\<open>os.ErrClosed\<close>, an error number of the kernel, an error wrapped by
  \<^verbatim>\<open>fmt.Errorf("...: %w", err)\<close>, and an error wrapped in an \<^verbatim>\<open>*os.PathError\<close> with the
  name of the operation. The comparison \<^verbatim>\<open>err == os.ErrClosed\<close> is identity with the
  sentinel, so a wrapped \<^verbatim>\<open>os.ErrClosed\<close> is a different value.
\<close>

datatype go_error = ErrClosed | Errno nat | Errorf string go_error | PathError string go_error

text \<open>A call either returns a value or panics, which terminates the process.\<close>

datatype 'a outcome = Returns 'a | Panics go_error

section \<open>Reading the monotonic clock\<close>

text \<open>
  \<^verbatim>\<open>unix.Timespec\<close> and its method \<^verbatim>\<open>Nano\<close>, seconds times \<open>10\<^sup>9\<close> plus nanoseconds in
  \<^verbatim>\<open>int64\<close>. \<^verbatim>\<open>new(unix.Timespec)\<close> is the zero value.
\<close>

record Timespec =
  Sec :: int64
  Nsec :: int64

definition Nano :: "Timespec \<Rightarrow> int64" where
  "Nano ts = Sec ts * 1000000000 + Nsec ts"

definition new_Timespec :: Timespec where
  "new_Timespec = \<lparr>Sec = 0, Nsec = 0\<rparr>"

text \<open>
  What the kernel answers to \<^verbatim>\<open>clock_gettime(CLOCK_MONOTONIC)\<close>: a time, or an error.
  \<^verbatim>\<open>unix.ClockGettime\<close> stores the time through its pointer argument and returns
  \<^verbatim>\<open>nil\<close>, or leaves the argument as it was and returns the error.
\<close>

datatype clock_reply = ClockOk Timespec | ClockErr go_error

definition ClockGettime :: "clock_reply \<Rightarrow> Timespec \<Rightarrow> Timespec \<times> go_error option" where
  "ClockGettime k spec = (case k of ClockOk ts \<Rightarrow> (ts, None) | ClockErr e \<Rightarrow> (spec, Some e))"

text \<open>
  \<^verbatim>\<open>Now\<close> of the \<^verbatim>\<open>MonoTime\<close> variant in \<^verbatim>\<open>mono.go\<close>:
  \<^verbatim>\<open>spec := new(unix.Timespec); _ = unix.ClockGettime(unix.CLOCK_MONOTONIC, spec);\<close>
  \<^verbatim>\<open>return MonoTime(spec.Nano())\<close>. The error is assigned to the blank identifier.
\<close>

definition Now_MonoTime :: "clock_reply \<Rightarrow> MonoTime outcome" where
  "Now_MonoTime k = (case ClockGettime k new_Timespec of (spec, _) \<Rightarrow> Returns (Nano spec))"

text \<open>
  \<^verbatim>\<open>Now\<close> of the \<^verbatim>\<open>Time\<close> variant in \<^verbatim>\<open>mono.go\<close>: when \<^verbatim>\<open>err != nil\<close> it panics with
  \<^verbatim>\<open>fmt.Errorf("Error getting monotime from the kernel: %w", err)\<close>, else it returns
  \<^verbatim>\<open>Time(spec.Nano())\<close>.
\<close>

definition Now_Time :: "clock_reply \<Rightarrow> MonoTime outcome" where
  "Now_Time k =
     (case ClockGettime k new_Timespec of
        (spec, err) \<Rightarrow>
          (case err of
             Some e \<Rightarrow> Panics (Errorf ''Error getting monotime from the kernel: %w'' e)
           | None \<Rightarrow> Returns (Nano spec)))"

section \<open>The ticker\<close>

text \<open>
  \<^verbatim>\<open>sync.Once\<close> holds whether its action has run. \<^verbatim>\<open>os.File\<close> is modelled by whether
  the handle is closed, together with the number of times \<^verbatim>\<open>Close\<close> has been called on
  it. \<^verbatim>\<open>Close\<close> on an open file closes the handle and returns \<^verbatim>\<open>nil\<close>; on a closed
  file it returns an error that wraps \<^verbatim>\<open>os.ErrClosed\<close>.
\<close>

record Once =
  once_done :: bool

record File =
  file_closed :: bool
  close_calls :: nat

definition File_Close :: "File \<Rightarrow> File \<times> go_error option" where
  "File_Close f =
     (if file_closed f then (f\<lparr>close_calls := close_calls f + 1\<rparr>, Some (PathError ''close'' ErrClosed))
      else (f\<lparr>file_closed := True, close_calls := close_calls f + 1\<rparr>, None))"

text \<open>
  \<^verbatim>\<open>type Ticker struct { C <-chan struct{}; stopOnce sync.Once; stopped bool; fd os.File }\<close>.
  The channel \<open>C\<close> is unbuffered and carries values of \<^verbatim>\<open>struct{}\<close>; it is modelled by
  the list of the ticks sent on it so far.
\<close>

record Ticker =
  C :: "unit list"
  stopOnce :: Once
  stopped :: bool
  fd :: File

text \<open>
  \<^verbatim>\<open>func (t *Ticker) Stop() { t.stopOnce.Do(func() { t.fd.Close() }) }\<close>.
  \<^verbatim>\<open>Once.Do\<close> runs its argument if and only if it is the first call of \<^verbatim>\<open>Do\<close> on this
  \<^verbatim>\<open>Once\<close>. The error that \<^verbatim>\<open>Close\<close> returns is dropped. This is one call of \<^verbatim>\<open>Stop\<close>
  with no other call of \<^verbatim>\<open>Stop\<close> in progress.
\<close>

definition Stop :: "Ticker \<Rightarrow> Ticker outcome" where
  "Stop t =
     (if once_done (stopOnce t) then Returns t
      else (case File_Close (fd t) of
              (f, _) \<Rightarrow> Returns (t\<lparr>stopOnce := \<lparr>once_done = True\<rparr>, fd := f\<rparr>)))"

text \<open>\<open>n\<close> calls of \<^verbatim>\<open>Stop\<close> on the same ticker, one after the other; a panic ends the run.\<close>

fun Stop_calls :: "nat \<Rightarrow> Ticker \<Rightarrow> Ticker outcome" where
  "Stop_calls 0 t = Returns t"
| "Stop_calls (Suc n) t =
     (case Stop t of Returns t' \<Rightarrow> Stop_calls n t' | Panics e \<Rightarrow> Panics e)"

text \<open>
  Calls of \<^verbatim>\<open>Stop\<close> from several goroutines at once. \<^verbatim>\<open>Once.Do\<close> returns at once when
  the \<^verbatim>\<open>Once\<close> is done; otherwise it takes the mutex of the \<^verbatim>\<open>Once\<close>, and, the \<^verbatim>\<open>Once\<close>
  still not being done, runs the action, marks the \<^verbatim>\<open>Once\<close> done and releases the mutex.
  A call is therefore at one of three places: it has not yet passed the \<^verbatim>\<open>Once\<close>
  (\<open>Calling\<close>), it holds the mutex and is about to run \<^verbatim>\<open>t.fd.Close()\<close> (\<open>Closing\<close>), or
  it has returned. A call that finds the mutex taken waits.
\<close>

datatype call_pc = Calling | Closing | Returned

record stop_state =
  ticker :: Ticker
  once_locked :: bool
  calls :: "call_pc list"

text \<open>One step of call number \<open>i\<close>; a waiting or returned call leaves the state as it is.\<close>

definition Stop_step :: "nat \<Rightarrow> stop_state \<Rightarrow> stop_state" where
  "Stop_step i s =
     (if length (calls s) \<le> i then s
      else case calls s ! i of
        Calling \<Rightarrow>
          if once_done (stopOnce (ticker s)) then s\<lparr>calls := (calls s)[i := Returned]\<rparr>
          else if once_locked s then s
          else s\<lparr>once_locked := True, calls := (calls s)[i := Closing]\<rparr>
      | Closing \<Rightarrow>
          (case File_Close (fd (ticker s)) of
             (f, _) \<Rightarrow>
               s\<lparr>ticker := (ticker s)\<lparr>stopOnce := \<lparr>once_done = True\<rparr>, fd := f\<rparr>,
                 once_locked := False,
                 calls := (calls s)[i := Returned]\<rparr>)
      | Returned \<Rightarrow> s)"

text \<open>A schedule names the call that takes the next step, again and again.\<close>

fun Stop_run :: "nat list \<Rightarrow> stop_state \<Rightarrow> stop_state" where
  "Stop_run [] s = s"
| "Stop_run (i # sch) s = Stop_run sch (Stop_step i s)"

text \<open>\<open>n\<close> calls of \<^verbatim>\<open>Stop\<close> on the ticker \<open>t\<close>, none of which has taken a step.\<close>

definition Stop_init :: "Ticker \<Rightarrow> nat \<Rightarrow> stop_state" where
  "Stop_init t n = \<lparr>ticker = t, once_locked = False, calls = replicate n Calling\<rparr>"

text \<open>The steps the calls still have to take, at most.\<close>

fun steps_left :: "call_pc \<Rightarrow> nat" where
  "steps_left Calling = 2"
| "steps_left Closing = 1"
| "steps_left Returned = 0"

definition pending :: "stop_state \<Rightarrow> nat" where
  "pending s = sum_list (map steps_left (calls s))"

text \<open>
  What holds of \<open>n\<close> calls of \<^verbatim>\<open>Stop\<close> at every moment, \<open>c\<close> being the number of calls of
  \<^verbatim>\<open>Close\<close> before the first of them: the mutex is held by exactly the one call that is
  closing; once the \<^verbatim>\<open>Once\<close> is done, \<^verbatim>\<open>Close\<close> has been called once more and the mutex is
  free; until then \<^verbatim>\<open>Close\<close> has not been called again and no call has returned.
\<close>

definition Stop_inv :: "nat \<Rightarrow> nat \<Rightarrow> stop_state \<Rightarrow> bool" where
  "Stop_inv n c s \<longleftrightarrow>
     length (calls s) = n \<and>
     count_list (calls s) Closing = (if once_locked s then 1 else 0) \<and>
     (if once_done (stopOnce (ticker s))
      then close_calls (fd (ticker s)) = c + 1 \<and> \<not> once_locked s
      else close_calls (fd (ticker s)) = c \<and> Returned \<notin> set (calls s))"

text \<open>
  What one \<^verbatim>\<open>t.fd.Read(expirations)\<close> of the delivery task yields: the error, and the
  eight bytes then in \<^verbatim>\<open>expirations\<close> read as a \<^verbatim>\<open>uint64\<close> in host byte order.
\<close>

record read_reply =
  rd_err :: "go_error option"
  rd_count :: "64 word"

text \<open>
  \<^verbatim>\<open>os.File.Read\<close> on the handle \<open>f\<close>, \<open>k\<close> being what the kernel gives to a read of the
  timer. On a handle that has been closed nothing is read, and the error is an
  \<^verbatim>\<open>*os.PathError\<close> for the operation \<^verbatim>\<open>read\<close> that wraps \<^verbatim>\<open>os.ErrClosed\<close>.
\<close>

definition File_Read :: "File \<Rightarrow> read_reply \<Rightarrow> read_reply" where
  "File_Read f k =
     (if file_closed f then k\<lparr>rd_err := Some (PathError ''read'' ErrClosed)\<rparr> else k)"

text \<open>
  Where the delivery task stands after the replies it has been given: it has returned,
  it has panicked, or it is blocked in its next \<^verbatim>\<open>Read\<close>.
\<close>

datatype task_outcome = Exited | Panicked go_error | Reading

text \<open>The inner loop \<^verbatim>\<open>for i = 0; i < occurances; i++ { ch <- struct{}{} }\<close>.\<close>

primrec send_ticks :: "nat \<Rightarrow> unit list \<Rightarrow> unit list" where
  "send_ticks 0 ch = ch"
| "send_ticks (Suc n) ch = send_ticks n (ch @ [()])"

text \<open>
  The loop of the goroutine in \<^verbatim>\<open>start\<close>, run against the replies of the successive
  reads: \<^verbatim>\<open>if err == os.ErrClosed { return } else if err != nil { panic(...) }\<close>, then
  the inner loop. In the variant that holds the mutex the first branch is \<^verbatim>\<open>break\<close>,
  which leaves the loop and the goroutine in the same way.
\<close>

fun start_loop :: "read_reply list \<Rightarrow> unit list \<Rightarrow> task_outcome \<times> unit list" where
  "start_loop [] ch = (Reading, ch)"
| "start_loop (r # rs) ch =
     (if rd_err r = Some ErrClosed then (Exited, ch)
      else if rd_err r \<noteq> None
        then (Panicked (Errorf ''Unknown error reading from timerfd: %w'' (the (rd_err r))), ch)
      else start_loop rs (send_ticks (unat (rd_count r)) ch))"

text \<open>\<^verbatim>\<open>start\<close>: makes the channel, stores it in \<^verbatim>\<open>t.C\<close> and runs the loop.\<close>

definition start :: "Ticker \<Rightarrow> read_reply list \<Rightarrow> task_outcome \<times> Ticker" where
  "start t replies = (case start_loop replies [] of (out, ch) \<Rightarrow> (out, t\<lparr>C := ch\<rparr>))"


section \<open>Signed 64-bit arithmetic\<close>

lemma sint_int64_bounds:
  "- 9223372036854775808 \<le> sint (w :: int64)" "sint (w :: int64) < 9223372036854775808"
  using sint_ge [of w] sint_lt [of w] by simp_all

lemma sint_int64_of_int:
  "- 9223372036854775808 \<le> x \<Longrightarrow> x < 9223372036854775808 \<Longrightarrow> sint (word_of_int x :: int64) = x"
  by (simp add: int_word_sint)

lemma sint_add64:
  assumes "- 9223372036854775808 \<le> sint a + sint b" "sint a + sint b < 9223372036854775808"
  shows "sint (a + b :: int64) = sint a + sint b"
proof -
  have "a + b = word_of_int (sint a + sint b)" by simp
  then show ?thesis using sint_int64_of_int [OF assms] by simp
qed

lemma sint_diff64:
  assumes "- 9223372036854775808 \<le> sint a - sint b" "sint a - sint b < 9223372036854775808"
  shows "sint (a - b :: int64) = sint a - sint b"
proof -
  have "a - b = word_of_int (sint a - sint b)" by simp
  then show ?thesis using sint_int64_of_int [OF assms] by simp
qed


lemma not_sle_zero: "0 <s (d :: int64) \<Longrightarrow> \<not> d \<le>s 0"
  by (simp add: word_sle_eq word_sless_alt)

text \<open>The truncated remainder lies between zero and the dividend.\<close>

lemma smod_nonneg: "0 \<le> (a::int) \<Longrightarrow> 0 \<le> a smod b \<and> a smod b \<le> a"
  by (cases "b = 0") (auto simp add: signed_modulo_int_def sgn_if zmod_le_nonneg_dividend)

lemma smod_nonpos:
  assumes "(a::int) \<le> 0"
  shows "a \<le> a smod b \<and> a smod b \<le> 0"
proof (cases "b = 0")
  case True
  then show ?thesis using assms by simp
next
  case False
  then have "- a mod \<bar>b\<bar> \<le> - a" "0 \<le> - a mod \<bar>b\<bar>"
    using assms by (simp_all add: zmod_le_nonneg_dividend)
  then show ?thesis using assms by (auto simp add: signed_modulo_int_def sgn_if)
qed


lemma dvd_smod_zero: "(b::int) dvd a \<Longrightarrow> a smod b = 0"
  by (simp add: signed_modulo_int_def)

lemma smod_multiple_part: "(b::int) dvd (a - a smod b)"
  by (simp add: minus_smod_eq_sdiv_mult)

lemma sint_rem64: "sint (rem64 a b) = sint a smod sint b"
proof -
  have "- 9223372036854775808 \<le> sint a smod sint b" "sint a smod sint b < 9223372036854775808"
    using sint_int64_bounds [of a] smod_nonneg [of "sint a" "sint b"]
      smod_nonpos [of "sint a" "sint b"]
    by linarith+
  then show ?thesis unfolding rem64_def by (rule sint_int64_of_int)
qed

lemma rem64_eq_0_iff: "rem64 x d = 0 \<longleftrightarrow> sint x smod sint d = 0"
  using signed_eq_0_iff [of "rem64 x d", where ?'a = int] by (simp add: sint_rem64)

section \<open>Truncate and Round as integers\<close>

lemma sint_Truncate:
  assumes "0 <s d"
  shows "sint (Truncate t d) = sint t - sint t smod sint d"
proof -
  have "- 9223372036854775808 \<le> sint t - sint (rem64 t d)"
       "sint t - sint (rem64 t d) < 9223372036854775808"
    using sint_int64_bounds [of t] smod_nonneg [of "sint t" "sint d"]
      smod_nonpos [of "sint t" "sint d"]
    by (simp_all add: sint_rem64) linarith+
  then have "sint (t - rem64 t d) = sint t - sint (rem64 t d)" by (rule sint_diff64)
  then show ?thesis using not_sle_zero [OF assms] by (simp add: Truncate_def Add_def sint_rem64)
qed

lemma Round_cases:
  assumes "0 <s d"
  shows "Round t d = (if rem64 t d * 2 \<le>s d then Truncate t d else Truncate t d + d)"
  using not_sle_zero [OF assms] by (simp add: Round_def Truncate_def Add_def Let_def)

lemma Truncate_multiple:
  assumes "0 <s d"
  shows "rem64 (Truncate t d) d = 0"
  using smod_multiple_part [of "sint d" "sint t"]
  by (simp add: rem64_eq_0_iff sint_Truncate [OF assms] dvd_smod_zero)

lemma Round_of_multiple:
  assumes "0 <s d" "rem64 m d = 0"
  shows "Round m d = m"
proof -
  have "0 \<le>s d" using assms(1) by (simp add: word_sle_eq word_sless_alt)
  then show ?thesis using not_sle_zero [OF assms(1)] assms(2) by (simp add: Round_def Add_def)
qed

lemma sint_Truncate_plus:
  assumes "0 <s d" "sint t - sint t smod sint d + sint d < 9223372036854775808"
  shows "sint (Truncate t d + d) = sint t - sint t smod sint d + sint d"
proof -
  have D: "0 < sint d" using assms(1) by (simp add: word_sless_alt)
  have "- 9223372036854775808 \<le> sint (Truncate t d)" by (rule sint_int64_bounds)
  then have "- 9223372036854775808 \<le> sint (Truncate t d) + sint d" using D by linarith
  moreover have "sint (Truncate t d) + sint d < 9223372036854775808"
    using assms(2) by (simp add: sint_Truncate [OF assms(1)])
  ultimately have "sint (Truncate t d + d) = sint (Truncate t d) + sint d"
    by (rule sint_add64)
  then show ?thesis by (simp add: sint_Truncate [OF assms(1)])
qed

text \<open>
  What \<^verbatim>\<open>Truncate\<close> does keep for every \<open>t\<close> and positive \<open>d\<close>: the result is a multiple
  of \<open>d\<close>, and \<open>t\<close> minus the result is the remainder, strictly below \<open>d\<close>. For \<open>t \<ge> 0\<close> the
  result is at most \<open>t\<close>.
\<close>

lemma Truncate_Sub_less:
  assumes "0 <s d"
  shows "Sub t (Truncate t d) = rem64 t d \<and> rem64 t d <s d"
proof -
  have D: "0 < sint d" using assms by (simp add: word_sless_alt)
  have "sint t smod sint d < sint d"
    using smod_int_range [of "sint d" "sint t"] D by simp
  then have "rem64 t d <s d" by (simp add: word_sless_alt sint_rem64)
  moreover have "Sub t (Truncate t d) = rem64 t d"
    using not_sle_zero [OF assms] by (simp add: Sub_def Truncate_def Add_def)
  ultimately show ?thesis by simp
qed

lemma Truncate_le_nonneg:
  assumes "0 <s d" "0 \<le>s t"
  shows "Truncate t d \<le>s t"
proof -
  have "0 \<le> sint t" using assms(2) by (simp add: word_sle_eq)
  then have "0 \<le> sint t smod sint d" using smod_nonneg by blast
  then show ?thesis by (simp add: word_sle_eq sint_Truncate [OF assms(1)])
qed

section \<open>Add and Sub\<close>

text \<open>
  C4: \<^verbatim>\<open>Add\<close> and \<^verbatim>\<open>Sub\<close> are exact inverses under 64-bit wrap-around: for every time
  \<open>t\<close>, duration \<open>d\<close> and time \<open>t2\<close>, \<^verbatim>\<open>t.Add(d).Sub(t) == d\<close> and
  \<^verbatim>\<open>t.Add(t2.Sub(t)) == t2\<close>.
\<close>

theorem Add_Sub_inverse:
  "Sub (Add t d) t = d \<and> Add t (Sub t2 t) = t2"
  by (simp add: Add_def Sub_def)

text \<open>
  C10: zero is the identity of \<^verbatim>\<open>Add\<close>, and adding two durations in turn is adding their
  wrapped sum: \<^verbatim>\<open>t.Add(0) == t\<close> and \<^verbatim>\<open>t.Add(d1).Add(d2) == t.Add(d1 + d2)\<close>.
\<close>

theorem Add_zero_and_sum:
  "Add t 0 = t \<and> Add (Add t d1) d2 = Add t (d1 + d2)"
  by (simp add: Add_def)

section \<open>Round and Truncate with a non-positive duration\<close>

text \<open>
  C8: for every time \<open>t\<close> and every duration \<open>d \<le> 0\<close>, \<^verbatim>\<open>Round\<close> and \<^verbatim>\<open>Truncate\<close> both
  return \<open>t\<close> unchanged.
\<close>

theorem Round_Truncate_nonpositive:
  "d \<le>s 0 \<Longrightarrow> Round t d = t \<and> Truncate t d = t"
  by (simp add: Round_def Truncate_def)

text \<open>The same at \<open>t = 7\<close> with \<open>d = -5\<close>.\<close>

theorem Round_Truncate_nonpositive_witness:
  "(- 5 :: int64) \<le>s 0 \<and> Round 7 (- 5) = 7 \<and> Truncate 7 (- 5) = 7"
proof -
  have h: "(- 5 :: int64) \<le>s 0" by (simp add: word_sle_eq)
  show ?thesis using h Round_Truncate_nonpositive [OF h, of 7] by simp
qed

section \<open>Round: halfway values\<close>

text \<open>
  C1: when the remainder of \<open>t\<close> by \<open>d\<close> is exactly half of \<open>d\<close>, \<^verbatim>\<open>Round\<close> is to return the
  later multiple of \<open>d\<close>. At \<open>t = 2\<close> and \<open>d = 4\<close> the remainder is \<open>2\<close> and twice the remainder
  is \<open>d\<close>; the comparison \<^verbatim>\<open>r*2 <= d\<close> holds, and the code returns \<^verbatim>\<open>t.Add(-r)\<close>, which
  is \<open>0\<close>, the earlier multiple, and not \<open>4\<close>.
\<close>

theorem Round_halfway_2_4:
  "rem64 2 4 * 2 = (4 :: int64) \<and> Round 2 4 = 0 \<and> Round 2 4 \<noteq> 4"
  by (simp add: Round_def rem64_def Add_def signed_modulo_int_def word_sle_eq)

text \<open>The same on every halfway value: the code returns what \<^verbatim>\<open>Truncate\<close> returns.\<close>

lemma Round_halfway_is_Truncate:
  assumes "0 <s d" "rem64 t d * 2 = d"
  shows "Round t d = Truncate t d"
  using assms(2) by (simp add: Round_cases [OF assms(1)])

section \<open>Truncate on negative times\<close>

text \<open>
  C2: for every time \<open>t\<close>, negative ones included, and every \<open>d > 0\<close>, \<^verbatim>\<open>Truncate(t, d)\<close>
  is to be at most \<open>t\<close>. At \<open>t = -3\<close> and \<open>d = 4\<close> the remainder of Go's \<^verbatim>\<open>%\<close> is \<open>-3\<close>, and the
  code returns \<^verbatim>\<open>t.Add(-(-3))\<close>, which is \<open>0\<close> and lies above \<open>t\<close>.
\<close>

theorem Truncate_minus_3_4:
  "rem64 (- 3) 4 = (- 3 :: int64) \<and> Truncate (- 3) 4 = 0 \<and> \<not> Truncate (- 3) 4 \<le>s - 3"
  by (simp add: Truncate_def rem64_def Add_def signed_modulo_int_def word_sle_eq)

section \<open>Round: distance to the argument\<close>




section \<open>Round: multiples of the duration\<close>

text \<open>
  C9, as stated: for every \<open>t\<close> and every \<open>d > 0\<close>, \<^verbatim>\<open>Round(t, d)\<close> is an exact multiple of
  \<open>d\<close>, and rounding it again changes nothing. With \<open>t = 2\<^sup>6\<^sup>3 - 1\<close> and \<open>d = 9\<close> the remainder is
  \<open>7\<close>, the code returns \<^verbatim>\<open>t.Add(9 - 7)\<close>, and the sum wraps around to \<open>-(2\<^sup>6\<^sup>3 - 1)\<close>, whose
  remainder by \<open>9\<close> is \<open>-7\<close>; rounding it again gives \<open>-(2\<^sup>6\<^sup>3 - 8)\<close>.
\<close>

theorem Round_multiple_counterexample:
  "0 <s (9 :: int64) \<and>
   Round 9223372036854775807 9 = - 9223372036854775807 \<and>
   rem64 (Round 9223372036854775807 9) 9 \<noteq> 0 \<and>
   Round (Round 9223372036854775807 9) 9 \<noteq> Round 9223372036854775807 9"
  by (simp add: Round_def rem64_def Add_def signed_modulo_int_def word_sle_eq word_sless_alt)

text \<open>
  C9, amended: for every \<open>t\<close> and every \<open>d > 0\<close> such that the multiple of \<open>d\<close> next above \<open>t\<close>
  does not exceed the largest \<^verbatim>\<open>int64\<close>, \<^verbatim>\<open>Round(t, d)\<close> is an exact multiple of \<open>d\<close> (its
  signed remainder by \<open>d\<close> is zero), and \<^verbatim>\<open>Round(Round(t, d), d) == Round(t, d)\<close>.
\<close>

theorem Round_multiple_idempotent:
  assumes "0 <s d" and "sint t - sint t smod sint d + sint d < 9223372036854775808"
  shows "rem64 (Round t d) d = 0 \<and> Round (Round t d) d = Round t d"
proof -
  have "sint d dvd sint t - sint t smod sint d + sint d"
    using smod_multiple_part [of "sint d" "sint t"] by simp
  then have "rem64 (Truncate t d + d) d = 0"
    by (simp add: rem64_eq_0_iff sint_Truncate_plus [OF assms] dvd_smod_zero)
  then have m: "rem64 (Round t d) d = 0"
    by (simp add: Round_cases [OF assms(1)] Truncate_multiple [OF assms(1)])
  then show ?thesis using Round_of_multiple [OF assms(1) m] by simp
qed

text \<open>The amended C9 at the negative time \<open>t = -7\<close> with \<open>d = 4\<close>, where the code returns \<open>-4\<close>.\<close>

theorem Round_multiple_idempotent_witness:
  "0 <s (4 :: int64) \<and>
   sint (- 7 :: int64) - sint (- 7 :: int64) smod sint (4 :: int64) + sint (4 :: int64)
     < 9223372036854775808 \<and>
   Round (- 7) 4 = - 4 \<and>
   rem64 (Round (- 7) 4) 4 = 0 \<and> Round (Round (- 7) 4) 4 = Round (- 7) 4"
proof -
  have h1: "0 <s (4 :: int64)" by (simp add: word_sless_alt)
  have h2: "sint (- 7 :: int64) - sint (- 7 :: int64) smod sint (4 :: int64) + sint (4 :: int64)
      < 9223372036854775808"
    by (simp add: signed_modulo_int_def)
  have v: "Round (- 7) 4 = (- 4 :: int64)"
    by (simp add: Round_def rem64_def Add_def signed_modulo_int_def word_sle_eq)
  show ?thesis using h1 h2 v Round_multiple_idempotent [OF h1 h2] by simp
qed

section \<open>Now and a failing clock\<close>

lemma Now_Time_error_panics:
  "Now_Time (ClockErr e) = Panics (Errorf ''Error getting monotime from the kernel: %w'' e)"
  by (simp add: Now_Time_def ClockGettime_def)

lemma Now_MonoTime_returns: "\<exists>v. Now_MonoTime k = Returns v"
  by (simp add: Now_MonoTime_def split: prod.splits)

text \<open>
  C5: \<^verbatim>\<open>Now\<close> is to terminate the process whenever the clock cannot be read, with no path
  on which the error is dropped and a value returned. When \<^verbatim>\<open>unix.ClockGettime\<close> fails
  with \<^verbatim>\<open>EINVAL\<close> (error number 22), \<^verbatim>\<open>Now\<close> of the \<^verbatim>\<open>MonoTime\<close> variant drops the error
  and returns \<open>0\<close>, the \<^verbatim>\<open>Nano\<close> of the zero \<^verbatim>\<open>Timespec\<close>; \<^verbatim>\<open>Now\<close> of the \<^verbatim>\<open>Time\<close>
  variant panics on the same reply.
\<close>

theorem Now_MonoTime_drops_error:
  "Now_MonoTime (ClockErr (Errno 22)) = Returns 0 \<and>
   Now_Time (ClockErr (Errno 22)) =
     Panics (Errorf ''Error getting monotime from the kernel: %w'' (Errno 22))"
  by (simp add: Now_MonoTime_def Now_Time_def ClockGettime_def new_Timespec_def Nano_def)

section \<open>Stop runs the close once\<close>

lemma count_list_update:
  "i < length xs \<Longrightarrow>
   count_list (xs[i := v]) c + (if xs ! i = c then 1 else 0) = count_list xs c + (if v = c then 1 else 0)"
proof (induction xs arbitrary: i)
  case Nil
  then show ?case by simp
next
  case (Cons a xs)
  show ?case
  proof (cases i)
    case 0
    then show ?thesis by simp
  next
    case (Suc j)
    then have "j < length xs" using Cons.prems by simp
    from Cons.IH [OF this] show ?thesis using Suc by (auto split: if_splits)
  qed
qed

lemma sum_steps_update:
  "i < length xs \<Longrightarrow>
   sum_list (map steps_left (xs[i := v])) + steps_left (xs ! i) = sum_list (map steps_left xs) + steps_left v"
proof (induction xs arbitrary: i)
  case Nil
  then show ?case by simp
next
  case (Cons a xs)
  show ?case
  proof (cases i)
    case 0
    then show ?thesis by simp
  next
    case (Suc j)
    then have "j < length xs" using Cons.prems by simp
    from Cons.IH [OF this] show ?thesis using Suc by simp
  qed
qed

lemma Stop_inv_init:
  "\<not> once_done (stopOnce t) \<Longrightarrow> Stop_inv n (close_calls (fd t)) (Stop_init t n)"
  by (simp add: Stop_inv_def Stop_init_def count_list_0_iff)

lemma Stop_inv_step:
  assumes "Stop_inv n c s"
  shows "Stop_inv n c (Stop_step i s)"
proof (cases "i < length (calls s)")
  case False
  then show ?thesis using assms by (simp add: Stop_step_def)
next
  case True
  note upd = count_list_update [OF True, of _ Closing]
  show ?thesis
  proof (cases "calls s ! i")
    case Calling
    then show ?thesis
      using assms True upd [of Returned] upd [of Closing] set_update_subset_insert [of "calls s" i Closing]
      by (auto simp add: Stop_inv_def Stop_step_def)
  next
    case Closing
    then have "Closing \<in> set (calls s)" using True nth_mem by force
    then have "count_list (calls s) Closing \<noteq> 0" by (simp add: count_list_0_iff)
    then have l: "once_locked s" "\<not> once_done (stopOnce (ticker s))"
      using assms by (auto simp add: Stop_inv_def split: if_splits)
    then show ?thesis
      using assms True Closing upd [of Returned]
      by (auto simp add: Stop_inv_def Stop_step_def File_Close_def)
  next
    case Returned
    then show ?thesis using assms True by (simp add: Stop_step_def)
  qed
qed

lemma Stop_inv_run:
  "Stop_inv n c s \<Longrightarrow> Stop_inv n c (Stop_run sch s)"
  by (induction sch arbitrary: s) (simp_all add: Stop_inv_step)


lemma pending_step_le: "pending (Stop_step i s) \<le> pending s"
proof (cases "i < length (calls s)")
  case False
  then show ?thesis by (simp add: Stop_step_def)
next
  case True
  note upd = sum_steps_update [OF True]
  show ?thesis
    using upd [of Returned] upd [of Closing]
    by (cases "calls s ! i") (auto simp add: Stop_step_def pending_def File_Close_def)
qed

lemma pending_step_less:
  assumes "i < length (calls s)"
    and "calls s ! i = Closing \<or>
         calls s ! i = Calling \<and> (once_done (stopOnce (ticker s)) \<or> \<not> once_locked s)"
  shows "pending (Stop_step i s) < pending s"
proof -
  note upd = sum_steps_update [OF assms(1)]
  show ?thesis
    using assms upd [of Returned] upd [of Closing]
    by (cases "calls s ! i") (auto simp add: Stop_step_def pending_def File_Close_def)
qed

lemma Stop_progress:
  assumes "Stop_inv n c s" and "i < n" and "calls s ! i \<noteq> Returned"
  shows "\<exists>j<n. pending (Stop_step j s) < pending s"
proof -
  have len: "length (calls s) = n" using assms(1) by (simp add: Stop_inv_def)
  show ?thesis
  proof (cases "once_locked s")
    case True
    then have "count_list (calls s) Closing \<noteq> 0" using assms(1) by (simp add: Stop_inv_def)
    then have "Closing \<in> set (calls s)" by (simp add: count_list_0_iff)
    then obtain j where j: "j < n" "calls s ! j = Closing"
      using len by (auto simp add: in_set_conv_nth)
    then have "pending (Stop_step j s) < pending s"
      using len by (intro pending_step_less) simp_all
    then show ?thesis using j(1) by blast
  next
    case False
    then have "count_list (calls s) Closing = 0" using assms(1) by (simp add: Stop_inv_def)
    then have "Closing \<notin> set (calls s)" by (simp add: count_list_0_iff)
    then have "calls s ! i \<noteq> Closing" using assms(2) len nth_mem by force
    then have "calls s ! i = Calling" using assms(3) by (cases "calls s ! i") simp_all
    then have "pending (Stop_step i s) < pending s"
      using False assms(2) len by (intro pending_step_less) simp_all
    then show ?thesis using assms(2) by blast
  qed
qed

lemma Stop_inv_closes:
  assumes "Stop_inv n c s"
  shows "close_calls (fd (ticker s)) \<le> c + 1"
    and "Returned \<in> set (calls s) \<Longrightarrow> close_calls (fd (ticker s)) = c + 1"
  using assms by (auto simp add: Stop_inv_def split: if_splits)

lemma Stop_calls_done: "once_done (stopOnce t) \<Longrightarrow> Stop_calls n t = Returns t"
  by (induction n) (simp_all add: Stop_def)

lemma Stop_calls_fresh:
  assumes "\<not> once_done (stopOnce t)" and "0 < n"
  shows "Stop_calls n t = Returns (t\<lparr>stopOnce := \<lparr>once_done = True\<rparr>, fd := fst (File_Close (fd t))\<rparr>)"
proof -
  obtain m where n: "n = Suc m" using assms(2) by (cases n) simp_all
  have "Stop t = Returns (t\<lparr>stopOnce := \<lparr>once_done = True\<rparr>, fd := fst (File_Close (fd t))\<rparr>)"
    using assms(1) by (simp add: Stop_def split: prod.splits)
  then show ?thesis by (simp add: n Stop_calls_done)
qed

lemma close_calls_File_Close: "close_calls (fst (File_Close f)) = close_calls f + 1"
  by (simp add: File_Close_def)

text \<open>
  C6: \<^verbatim>\<open>Stop\<close> is idempotent. On a ticker whose \<^verbatim>\<open>Once\<close> has not run, \<open>n \<ge> 1\<close> calls of
  \<^verbatim>\<open>Stop\<close> one after the other all return, and \<^verbatim>\<open>Close\<close> has then been called exactly once.
  When the \<open>n\<close> calls run at the same time, under any schedule \<open>sch\<close> of their steps:
  \<^verbatim>\<open>Close\<close> has been called at most once; as soon as one call has returned it has been
  called exactly once; no step adds to the steps the calls still have to take; and as
  long as a call has not returned, some call can take a step that uses one of them up,
  so that every call returns.
\<close>

theorem Stop_exactly_once:
  assumes "\<not> once_done (stopOnce t)" and "0 < n"
  shows "(\<exists>t'. Stop_calls n t = Returns t' \<and> close_calls (fd t') = close_calls (fd t) + 1) \<and>
         (let s = Stop_run sch (Stop_init t n) in
            close_calls (fd (ticker s)) \<le> close_calls (fd t) + 1 \<and>
            (Returned \<in> set (calls s) \<longrightarrow> close_calls (fd (ticker s)) = close_calls (fd t) + 1) \<and>
            (\<forall>i. pending (Stop_step i s) \<le> pending s) \<and>
            ((\<exists>i<n. calls s ! i \<noteq> Returned) \<longrightarrow> (\<exists>i<n. pending (Stop_step i s) < pending s)))"
proof -
  have seq: "\<exists>t'. Stop_calls n t = Returns t' \<and> close_calls (fd t') = close_calls (fd t) + 1"
    by (simp add: Stop_calls_fresh [OF assms] close_calls_File_Close)
  have inv: "Stop_inv n (close_calls (fd t)) (Stop_run sch (Stop_init t n))"
    by (rule Stop_inv_run) (rule Stop_inv_init [OF assms(1)])
  show ?thesis
    using seq Stop_inv_closes [OF inv] Stop_progress [OF inv] pending_step_le
    by (auto simp add: Let_def)
qed

text \<open>
  The same for two calls on a fresh ticker: one after the other, and interleaved so
  that the second call arrives while the first holds the mutex.
\<close>

theorem Stop_exactly_once_witness:
  "\<not> once_done (stopOnce \<lparr>C = [], stopOnce = \<lparr>once_done = False\<rparr>, stopped = False,
       fd = \<lparr>file_closed = False, close_calls = 0\<rparr>\<rparr>) \<and>
   (0 :: nat) < 2 \<and>
   (\<exists>t'. Stop_calls 2 \<lparr>C = [], stopOnce = \<lparr>once_done = False\<rparr>, stopped = False,
       fd = \<lparr>file_closed = False, close_calls = 0\<rparr>\<rparr> = Returns t' \<and> close_calls (fd t') = 1) \<and>
   calls (Stop_run [0, 1, 0, 1] (Stop_init \<lparr>C = [], stopOnce = \<lparr>once_done = False\<rparr>,
       stopped = False, fd = \<lparr>file_closed = False, close_calls = 0\<rparr>\<rparr> 2)) = [Returned, Returned] \<and>
   close_calls (fd (ticker (Stop_run [0, 1, 0, 1] (Stop_init \<lparr>C = [], stopOnce = \<lparr>once_done = False\<rparr>,
       stopped = False, fd = \<lparr>file_closed = False, close_calls = 0\<rparr>\<rparr> 2)))) = 1"
proof -
  let ?t = "\<lparr>C = [], stopOnce = \<lparr>once_done = False\<rparr>, stopped = False,
       fd = \<lparr>file_closed = False, close_calls = 0\<rparr>\<rparr>"
  have h1: "\<not> once_done (stopOnce ?t)" by simp
  have h2: "(0 :: nat) < 2" by simp
  have run: "calls (Stop_run [0, 1, 0, 1] (Stop_init ?t 2)) = [Returned, Returned]"
    by (simp add: Stop_init_def Stop_step_def File_Close_def numeral_2_eq_2)
  show ?thesis
    using h1 run Stop_exactly_once [OF h1 h2, of "[0, 1, 0, 1]"]
    by (simp add: Let_def)
qed

section \<open>The delivery task\<close>

lemma start_loop_outcome:
  "fst (start_loop rs ch) =
     (case find (\<lambda>r. rd_err r \<noteq> None) rs of
        None \<Rightarrow> Reading
      | Some r \<Rightarrow>
          if rd_err r = Some ErrClosed then Exited
          else Panicked (Errorf ''Unknown error reading from timerfd: %w'' (the (rd_err r))))"
  by (induction rs ch rule: start_loop.induct) auto

lemma fst_start: "fst (start t replies) = fst (start_loop replies [])"
  by (simp add: start_def split: prod.splits)

text \<open>
  Where the task stands is decided by the first read that reports an error: the task
  returns when that error is the sentinel \<^verbatim>\<open>os.ErrClosed\<close> itself, panics on every other
  error, and goes on reading while the reads succeed.
\<close>

lemma start_outcome:
  "fst (start t replies) =
     (case find (\<lambda>r. rd_err r \<noteq> None) replies of
        None \<Rightarrow> Reading
      | Some r \<Rightarrow>
          if rd_err r = Some ErrClosed then Exited
          else Panicked (Errorf ''Unknown error reading from timerfd: %w'' (the (rd_err r))))"
  by (simp only: fst_start start_loop_outcome)

text \<open>
  The test is identity with the sentinel: on a read error that wraps \<^verbatim>\<open>os.ErrClosed\<close>
  the task panics.
\<close>

lemma start_wrapped_ErrClosed:
  "fst (start t [\<lparr>rd_err = Some (PathError ''read'' ErrClosed), rd_count = 0\<rparr>]) =
     Panicked (Errorf ''Unknown error reading from timerfd: %w'' (PathError ''read'' ErrClosed))"
  by (simp add: fst_start)

text \<open>\<^verbatim>\<open>Stop\<close> leaves the handle closed, and a read on a closed handle makes the task panic.\<close>

lemma Stop_closes: "Stop t = Returns t' \<Longrightarrow> \<not> once_done (stopOnce t) \<Longrightarrow> file_closed (fd t')"
  by (auto simp add: Stop_def File_Close_def split: if_splits)

lemma start_read_closed:
  "file_closed f \<Longrightarrow>
   fst (start t (File_Read f k # rest)) =
     Panicked (Errorf ''Unknown error reading from timerfd: %w'' (PathError ''read'' ErrClosed))"
  by (simp add: fst_start File_Read_def)

text \<open>
  C7: the delivery task is to return, without an error, exactly when its read fails
  because \<^verbatim>\<open>Stop\<close> has closed the handle. On a fresh ticker, let the task read one
  expiration and send its tick, and let \<^verbatim>\<open>Stop\<close> then be called: \<^verbatim>\<open>Stop\<close> closes the
  handle, the next \<^verbatim>\<open>t.fd.Read\<close> fails with an \<^verbatim>\<open>*os.PathError\<close> that wraps
  \<^verbatim>\<open>os.ErrClosed\<close>, the test \<^verbatim>\<open>err == os.ErrClosed\<close> is false, and the task panics
  instead of returning.
\<close>

theorem start_after_Stop_panics:
  "Stop \<lparr>C = [], stopOnce = \<lparr>once_done = False\<rparr>, stopped = False,
         fd = \<lparr>file_closed = False, close_calls = 0\<rparr>\<rparr> =
     Returns \<lparr>C = [], stopOnce = \<lparr>once_done = True\<rparr>, stopped = False,
         fd = \<lparr>file_closed = True, close_calls = 1\<rparr>\<rparr> \<and>
   File_Read \<lparr>file_closed = True, close_calls = 1\<rparr> \<lparr>rd_err = None, rd_count = 1\<rparr> =
     \<lparr>rd_err = Some (PathError ''read'' ErrClosed), rd_count = 1\<rparr> \<and>
   fst (start \<lparr>C = [], stopOnce = \<lparr>once_done = False\<rparr>, stopped = False,
         fd = \<lparr>file_closed = False, close_calls = 0\<rparr>\<rparr>
       [File_Read \<lparr>file_closed = False, close_calls = 0\<rparr> \<lparr>rd_err = None, rd_count = 1\<rparr>,
        File_Read \<lparr>file_closed = True, close_calls = 1\<rparr> \<lparr>rd_err = None, rd_count = 1\<rparr>]) =
     Panicked (Errorf ''Unknown error reading from timerfd: %w'' (PathError ''read'' ErrClosed))"
  by (simp add: Stop_def File_Close_def File_Read_def start_def)

end
